theory Spec2Isabelle
  imports Main "HOL-Library.Word"
begin

section \<open>Data model (package models)\<close>

text \<open>
  Go's \<^verbatim>\<open>int\<close> is a machine integer; on the 64-bit platforms it is a two's-complement
  64-bit value whose \<^verbatim>\<open>++\<close> and \<^verbatim>\<open>--\<close> wrap around silently. Comparisons of
  ids with zero are signed (\<open>\<le>s\<close>, \<open><s\<close>, read through \<open>sint\<close>).

  A \<^verbatim>\<open>time.Time\<close> is only stored and copied by the service, never inspected;
  it is an instant, given here as an integer count.

  A Go string is a sequence of characters; a slice is a list (a nil slice and an empty
  slice are both \<open>[]\<close>: \<^verbatim>\<open>len\<close>, \<^verbatim>\<open>range\<close>, \<^verbatim>\<open>append\<close> and slicing, the only
  operations the service uses, do not tell them apart).
\<close>

type_synonym Time = int

record Task =
  ID :: "64 word"
  Description :: string
  Completed :: bool
  CreatedAt :: Time

record TaskList =
  Tasks :: "Task list"
  NextID :: "64 word"

section \<open>Errors (package errors)\<close>

text \<open>
  The sentinel errors of the package, an error of the operating system or of a library
  (\<open>OtherError\<close>), \<^verbatim>\<open>fmt.Errorf("...: %w", err)\<close> as \<open>Wrapped\<close> with its message
  prefix, and \<^verbatim>\<open>errors.Join\<close>. A Go \<^verbatim>\<open>error\<close> that may be nil is an
  \<open>error option\<close>.
\<close>

datatype error =
    ErrEmptyDescription
  | ErrTaskNotFound
  | ErrInvalidID
  | ErrStorageRead
  | ErrStorageWrite
  | ErrInvalidJSON
  | ErrInvalidCommand
  | OtherError string
  | Wrapped string error
  | Join error error

text \<open>\<^verbatim>\<open>errors.Is\<close>: the error itself, or anything it wraps, equals the target.\<close>

fun Is :: "error \<Rightarrow> error \<Rightarrow> bool" where
  "Is (Wrapped c e) t = (Wrapped c e = t \<or> Is e t)"
| "Is (Join a b) t = (Join a b = t \<or> Is a t \<or> Is b t)"
| "Is e t = (e = t)"

text \<open>
  The wrapping utilities return nil for a nil error; every call site passes an error it
  has just tested to be non-nil, so they are given on errors.
\<close>

definition WrapWithContext :: "error \<Rightarrow> string \<Rightarrow> error" where
  "WrapWithContext err ctx = Wrapped ctx err"

definition WrapStorageReadError :: "error \<Rightarrow> string \<Rightarrow> error" where
  "WrapStorageReadError err filepath = Wrapped (''failed to read from storage at '' @ filepath) err"

definition WrapStorageWriteError :: "error \<Rightarrow> string \<Rightarrow> error" where
  "WrapStorageWriteError err filepath = Wrapped (''failed to write to storage at '' @ filepath) err"

definition WrapJSONError :: "error \<Rightarrow> string \<Rightarrow> error" where
  "WrapJSONError err filepath = Wrapped (''invalid JSON format in '' @ filepath) err"

definition IsTaskNotFound :: "error \<Rightarrow> bool" where
  "IsTaskNotFound err = Is err ErrTaskNotFound"

definition IsInvalidID :: "error \<Rightarrow> bool" where
  "IsInvalidID err = Is err ErrInvalidID"

definition IsEmptyDescription :: "error \<Rightarrow> bool" where
  "IsEmptyDescription err = Is err ErrEmptyDescription"

definition IsStorageError :: "error \<Rightarrow> bool" where
  "IsStorageError err = (Is err ErrStorageRead \<or> Is err ErrStorageWrite)"

definition IsInvalidJSON :: "error \<Rightarrow> bool" where
  "IsInvalidJSON err = Is err ErrInvalidJSON"

section \<open>The storage interface (package storage)\<close>

text \<open>
  \<^verbatim>\<open>Storage\<close> is an interface with two methods. An implementation is a state \<open>'s\<close>
  (the file system behind a \<^verbatim>\<open>FileStorage\<close>, the \<^verbatim>\<open>data\<close> field of the tests'
  mock) and the two methods over it. \<^verbatim>\<open>Save\<close> reads the list it is given and does
  not change it; it returns nil (\<open>None\<close>) or an error, and the next state.
  \<^verbatim>\<open>Load\<close> returns a list exactly when it returns no error.
\<close>

record 's Storage =
  Load :: "'s \<Rightarrow> error + TaskList"
  Save :: "'s \<Rightarrow> TaskList \<Rightarrow> error option \<times> 's"

section \<open>The task service (package todolist)\<close>

record 's TodoList =
  list :: TaskList
  storage :: 's

definition NewTodoList :: "'s Storage \<Rightarrow> 's \<Rightarrow> error + 's TodoList" where
  "NewTodoList S st =
     (case Load S st of
        Inl err \<Rightarrow> Inl (WrapWithContext err ''failed to initialize todo list'')
      | Inr l \<Rightarrow> Inr \<lparr>list = l, storage = st\<rparr>)"

text \<open>
  \<^verbatim>\<open>AddTask\<close>. \<^verbatim>\<open>strings.TrimSpace\<close> is library code (it decodes the string and
  consults the white-space table of the \<^verbatim>\<open>unicode\<close> package) and is a parameter; the
  time is what \<^verbatim>\<open>time.Now()\<close> answers in this call. The result is the returned pair
  (an error, or the task by value) and the service afterwards.
\<close>

definition AddTask ::
  "(string \<Rightarrow> string) \<Rightarrow> 's Storage \<Rightarrow> Time \<Rightarrow> 's TodoList \<Rightarrow> string \<Rightarrow> (error + Task) \<times> 's TodoList" where
  "AddTask TrimSpace S now todo description =
     (if TrimSpace description = [] then (Inl ErrEmptyDescription, todo)
      else
        let task = \<lparr>ID = NextID (list todo), Description = description,
                    Completed = False, CreatedAt = now\<rparr>;
            l1 = \<lparr>Tasks = Tasks (list todo) @ [task], NextID = NextID (list todo) + 1\<rparr>
        in case Save S (storage todo) l1 of
             (Some err, st') \<Rightarrow>
               (Inl (WrapWithContext err ''failed to save task after adding''),
                \<lparr>list = \<lparr>Tasks = take (length (Tasks l1) - 1) (Tasks l1), NextID = NextID l1 - 1\<rparr>,
                 storage = st'\<rparr>)
           | (None, st') \<Rightarrow> (Inr task, \<lparr>list = l1, storage = st'\<rparr>))"

definition ListTasks :: "'s TodoList \<Rightarrow> Task list" where
  "ListTasks todo = Tasks (list todo)"

text \<open>
  The search loop of \<^verbatim>\<open>CompleteTask\<close> and \<^verbatim>\<open>DeleteTask\<close>: \<open>taskIndex\<close> starts
  at \<open>-1\<close> and becomes the index of the first task whose id matches; \<open>i\<close> is the
  index of the head of the remaining range.
\<close>

fun findTask :: "Task list \<Rightarrow> 64 word \<Rightarrow> int \<Rightarrow> int" where
  "findTask [] tid i = -1"
| "findTask (task # rest) tid i = (if ID task = tid then i else findTask rest tid (i + 1))"

definition CompleteTask :: "'s Storage \<Rightarrow> 's TodoList \<Rightarrow> 64 word \<Rightarrow> error option \<times> 's TodoList" where
  "CompleteTask S todo tid =
     (if tid \<le>s 0 then (Some ErrInvalidID, todo)
      else
        let taskIndex = findTask (Tasks (list todo)) tid 0 in
        if taskIndex = -1 then (Some ErrTaskNotFound, todo)
        else
          let k = nat taskIndex;
              ts1 = (Tasks (list todo))[k := (Tasks (list todo) ! k)\<lparr>Completed := True\<rparr>];
              l1 = (list todo)\<lparr>Tasks := ts1\<rparr>
          in case Save S (storage todo) l1 of
               (Some err, st') \<Rightarrow>
                 (Some (WrapWithContext err ''failed to save task after completing''),
                  \<lparr>list = l1\<lparr>Tasks := ts1[k := (ts1 ! k)\<lparr>Completed := False\<rparr>]\<rparr>, storage = st'\<rparr>)
             | (None, st') \<Rightarrow> (None, \<lparr>list = l1, storage = st'\<rparr>))"

definition DeleteTask :: "'s Storage \<Rightarrow> 's TodoList \<Rightarrow> 64 word \<Rightarrow> error option \<times> 's TodoList" where
  "DeleteTask S todo tid =
     (if tid \<le>s 0 then (Some ErrInvalidID, todo)
      else
        let taskIndex = findTask (Tasks (list todo)) tid 0 in
        if taskIndex = -1 then (Some ErrTaskNotFound, todo)
        else
          let k = nat taskIndex;
              deletedTask = Tasks (list todo) ! k;
              ts1 = take k (Tasks (list todo)) @ drop (k + 1) (Tasks (list todo));
              l1 = (list todo)\<lparr>Tasks := ts1\<rparr>
          in case Save S (storage todo) l1 of
               (Some err, st') \<Rightarrow>
                 (Some (WrapWithContext err ''failed to save task after deleting''),
                  \<lparr>list = l1\<lparr>Tasks := take k ts1 @ ([deletedTask] @ drop k ts1)\<rparr>, storage = st'\<rparr>)
             | (None, st') \<Rightarrow> (None, \<lparr>list = l1, storage = st'\<rparr>))"

section \<open>File storage (package storage)\<close>

text \<open>
  The calls \<^verbatim>\<open>FileStorage\<close> makes into the \<^verbatim>\<open>os\<close> and \<^verbatim>\<open>encoding/json\<close>
  packages, over a file system \<open>'fs\<close>. They are library code and are parameters of the
  model. \<^verbatim>\<open>os.Remove\<close>'s error is dropped by the source.
\<close>

record 'fs Sys =
  ReadFile :: "'fs \<Rightarrow> string \<Rightarrow> error + string"
  WriteFile :: "'fs \<Rightarrow> string \<Rightarrow> string \<Rightarrow> error option \<times> 'fs"
  Rename :: "'fs \<Rightarrow> string \<Rightarrow> string \<Rightarrow> error option \<times> 'fs"
  Remove :: "'fs \<Rightarrow> string \<Rightarrow> 'fs"
  IsNotExist :: "error \<Rightarrow> bool"
  MarshalIndent :: "TaskList \<Rightarrow> error + string"
  Unmarshal :: "string \<Rightarrow> error + TaskList"

text \<open>
  \<^verbatim>\<open>Load\<close>. \<^verbatim>\<open>json.Unmarshal\<close> fills a zero-valued list, so what it yields depends
  on the data alone. The last step replaces a nil \<^verbatim>\<open>Tasks\<close> by an empty slice; on lists
  it changes nothing and is kept for the source's shape.
\<close>

definition FileStorage_Load :: "'fs Sys \<Rightarrow> string \<Rightarrow> 'fs \<Rightarrow> error + TaskList" where
  "FileStorage_Load sys filepath fs =
     (case ReadFile sys fs filepath of
        Inl err \<Rightarrow>
          if IsNotExist sys err then Inr \<lparr>Tasks = [], NextID = 1\<rparr>
          else Inl (WrapStorageReadError (Join ErrStorageRead err) filepath)
      | Inr data \<Rightarrow>
          (case Unmarshal sys data of
             Inl err \<Rightarrow> Inl (WrapJSONError (Join ErrInvalidJSON err) filepath)
           | Inr taskList \<Rightarrow>
               Inr (if Tasks taskList = [] then taskList\<lparr>Tasks := []\<rparr> else taskList)))"

definition FileStorage_Save :: "'fs Sys \<Rightarrow> string \<Rightarrow> 'fs \<Rightarrow> TaskList \<Rightarrow> error option \<times> 'fs" where
  "FileStorage_Save sys filepath fs l =
     (case MarshalIndent sys l of
        Inl err \<Rightarrow> (Some (WrapStorageWriteError (Join ErrStorageWrite err) filepath), fs)
      | Inr data \<Rightarrow>
          let tempFile = filepath @ ''.tmp'' in
          (case WriteFile sys fs tempFile data of
             (Some err, fs1) \<Rightarrow>
               (Some (WrapStorageWriteError (Join ErrStorageWrite err) filepath), fs1)
           | (None, fs1) \<Rightarrow>
               (case Rename sys fs1 tempFile filepath of
                  (Some err, fs2) \<Rightarrow>
                    (Some (WrapStorageWriteError (Join ErrStorageWrite err) filepath),
                     Remove sys fs2 tempFile)
                | (None, fs2) \<Rightarrow> (None, fs2))))"

definition NewFileStorage :: "'fs Sys \<Rightarrow> string \<Rightarrow> 'fs Storage" where
  "NewFileStorage sys filepath =
     \<lparr>Load = FileStorage_Load sys filepath, Save = FileStorage_Save sys filepath\<rparr>"

section \<open>Sequences of calls\<close>

text \<open>
  A caller issuing calls on one service, one after the other, as the tests do. An
  \<open>Add\<close> carries the description and the time \<^verbatim>\<open>time.Now()\<close> answers in that call.
  Each successful call leaves an event: the id \<^verbatim>\<open>AddTask\<close> assigned, or the id that
  was completed or deleted. \<open>run\<close> is \<open>None\<close> as soon as one call returns an error, so
  \<open>run \<dots> = Some (evs, todo')\<close> says that every call of the sequence succeeded.
\<close>

datatype operation = Add string Time | Complete "64 word" | Delete "64 word"

datatype event = AddedID "64 word" | CompletedID "64 word" | DeletedID "64 word"

definition step ::
  "(string \<Rightarrow> string) \<Rightarrow> 's Storage \<Rightarrow> 's TodoList \<Rightarrow> operation \<Rightarrow> (error + event) \<times> 's TodoList" where
  "step TrimSpace S todo c =
     (case c of
        Add description now \<Rightarrow>
          (case AddTask TrimSpace S now todo description of
             (Inl err, todo') \<Rightarrow> (Inl err, todo')
           | (Inr task, todo') \<Rightarrow> (Inr (AddedID (ID task)), todo'))
      | Complete tid \<Rightarrow>
          (case CompleteTask S todo tid of
             (Some err, todo') \<Rightarrow> (Inl err, todo')
           | (None, todo') \<Rightarrow> (Inr (CompletedID tid), todo'))
      | Delete tid \<Rightarrow>
          (case DeleteTask S todo tid of
             (Some err, todo') \<Rightarrow> (Inl err, todo')
           | (None, todo') \<Rightarrow> (Inr (DeletedID tid), todo')))"

fun run ::
  "(string \<Rightarrow> string) \<Rightarrow> 's Storage \<Rightarrow> 's TodoList \<Rightarrow> operation list \<Rightarrow> (event list \<times> 's TodoList) option" where
  "run TrimSpace S todo [] = Some ([], todo)"
| "run TrimSpace S todo (c # cs) =
     (case step TrimSpace S todo c of
        (Inl err, todo') \<Rightarrow> None
      | (Inr ev, todo') \<Rightarrow>
          (case run TrimSpace S todo' cs of
             None \<Rightarrow> None
           | Some (evs, todo'') \<Rightarrow> Some (ev # evs, todo'')))"

text \<open>The ids assigned by the \<^verbatim>\<open>AddTask\<close> calls, in call order; the number of such calls.\<close>

fun assigned :: "event list \<Rightarrow> 64 word list" where
  "assigned [] = []"
| "assigned (AddedID a # evs) = a # assigned evs"
| "assigned (ev # evs) = assigned evs"

fun adds :: "operation list \<Rightarrow> nat" where
  "adds [] = 0"
| "adds (Add description now # cs) = Suc (adds cs)"
| "adds (c # cs) = adds cs"

text \<open>
  The collections the data model describes: task ids are positive and pairwise
  distinct, and \<open>next_id\<close> is positive and above every id in the collection.
\<close>

definition wellformed :: "TaskList \<Rightarrow> bool" where
  "wellformed l =
     (distinct (map ID (Tasks l)) \<and>
      (\<forall>t \<in> set (Tasks l). 0 <s ID t \<and> ID t <s NextID l) \<and>
      0 <s NextID l)"

section \<open>Example storages and collections\<close>

text \<open>
  The in-memory \<^verbatim>\<open>mockStorage\<close> of the service's tests: its state is the \<^verbatim>\<open>data\<close>
  pointer, \<^verbatim>\<open>Save\<close> stores a copy and never fails.
\<close>

definition mockStorage :: "TaskList option Storage" where
  "mockStorage =
     \<lparr>Load = (\<lambda>data. case data of None \<Rightarrow> Inr \<lparr>Tasks = [], NextID = 1\<rparr> | Some l \<Rightarrow> Inr l),
      Save = (\<lambda>data l. (None, Some \<lparr>Tasks = Tasks l, NextID = NextID l\<rparr>))\<rparr>"

text \<open>
  An empty file system in which nothing can be written, as in the storage test that saves
  into a read-only directory.
\<close>

definition readOnlySys :: "unit Sys" where
  "readOnlySys =
     \<lparr>ReadFile = (\<lambda>fs p. Inl (OtherError ''no such file or directory'')),
      WriteFile = (\<lambda>fs p d. (Some (OtherError ''permission denied''), fs)),
      Rename = (\<lambda>fs a b. (Some (OtherError ''no such file or directory''), fs)),
      Remove = (\<lambda>fs p. fs),
      IsNotExist = (\<lambda>e. e = OtherError ''no such file or directory''),
      MarshalIndent = (\<lambda>l. Inr ''{}''),
      Unmarshal = (\<lambda>d. Inl (OtherError ''unexpected end of JSON input''))\<rparr>"

text \<open>
  An in-memory file system in which every write and every rename of an existing file
  succeeds, with a given codec in the place of \<^verbatim>\<open>encoding/json\<close>.
\<close>

definition memSys ::
  "(TaskList \<Rightarrow> error + string) \<Rightarrow> (string \<Rightarrow> error + TaskList) \<Rightarrow> (string \<rightharpoonup> string) Sys" where
  "memSys marshal unmarshal =
     \<lparr>ReadFile = (\<lambda>fs p. case fs p of
                     None \<Rightarrow> Inl (OtherError ''no such file or directory'')
                   | Some d \<Rightarrow> Inr d),
      WriteFile = (\<lambda>fs p d. (None, fs(p \<mapsto> d))),
      Rename = (\<lambda>fs a b. case fs a of
                     None \<Rightarrow> (Some (OtherError ''no such file or directory''), fs)
                   | Some d \<Rightarrow> (None, (fs(a := None))(b \<mapsto> d))),
      Remove = (\<lambda>fs p. fs(p := None)),
      IsNotExist = (\<lambda>e. e = OtherError ''no such file or directory''),
      MarshalIndent = marshal,
      Unmarshal = unmarshal\<rparr>"

text \<open>A file system with one readable file, whose content parses to the given list.\<close>

definition oneFileSys :: "TaskList \<Rightarrow> unit Sys" where
  "oneFileSys l = readOnlySys\<lparr>ReadFile := (\<lambda>fs p. Inr ''{...}''), Unmarshal := (\<lambda>d. Inr l)\<rparr>"

text \<open>The ASCII white space: space, tab, line feed, vertical tab, form feed, carriage return.\<close>

definition isSpaceASCII :: "char \<Rightarrow> bool" where
  "isSpaceASCII c = (c \<in> {CHR '' '', CHR 0x09, CHR 0x0A, CHR 0x0B, CHR 0x0C, CHR 0x0D})"

text \<open>\<^verbatim>\<open>strings.TrimSpace\<close> as it acts on strings whose white space is ASCII.\<close>

definition TrimSpaceASCII :: "string \<Rightarrow> string" where
  "TrimSpaceASCII s = rev (dropWhile isSpaceASCII (rev (dropWhile isSpaceASCII s)))"

text \<open>A collection of two tasks, the second one completed.\<close>

definition sampleList :: TaskList where
  "sampleList =
     \<lparr>Tasks = [\<lparr>ID = 1, Description = ''a'', Completed = False, CreatedAt = 10\<rparr>,
               \<lparr>ID = 2, Description = ''b'', Completed = True, CreatedAt = 20\<rparr>],
      NextID = 3\<rparr>"

text \<open>
  Collections a hand-edited file can hold: one whose \<open>next_id\<close> is not above its ids,
  and one with a repeated id, an id that is not positive, an empty description and a
  stale \<open>next_id\<close>.
\<close>

definition staleList :: TaskList where
  "staleList =
     \<lparr>Tasks = [\<lparr>ID = 1, Description = ''a'', Completed = False, CreatedAt = 10\<rparr>], NextID = 1\<rparr>"

definition junkList :: TaskList where
  "junkList =
     \<lparr>Tasks = [\<lparr>ID = 2, Description = [], Completed = False, CreatedAt = 10\<rparr>,
               \<lparr>ID = 0, Description = ''b'', Completed = False, CreatedAt = 20\<rparr>,
               \<lparr>ID = 2, Description = ''c'', Completed = False, CreatedAt = 5\<rparr>],
      NextID = 1\<rparr>"

text \<open>An empty collection whose \<open>next_id\<close> is the largest 64-bit \<^verbatim>\<open>int\<close>, \<open>2 ^ 63 - 1\<close>.\<close>

definition lastIDList :: TaskList where
  "lastIDList = \<lparr>Tasks = [], NextID = 0x7FFFFFFFFFFFFFFF\<rparr>"

section \<open>The search loop\<close>

lemma findTask_bounds:
  "findTask ts tid i = -1 \<or> (i \<le> findTask ts tid i \<and> findTask ts tid i < i + int (length ts))"
  by (induction ts arbitrary: i) (auto, force+)

lemma findTask_not_found:
  "0 \<le> i \<Longrightarrow> (findTask ts tid i = -1) = (tid \<notin> ID ` set ts)"
proof (induction ts arbitrary: i)
  case Nil
  then show ?case by simp
next
  case (Cons t ts)
  then show ?case by auto
qed

lemma findTask_first:
  "0 \<le> i \<Longrightarrow> findTask ts tid i \<noteq> -1 \<Longrightarrow>
     nat (findTask ts tid i - i) < length ts \<and>
     ID (ts ! nat (findTask ts tid i - i)) = tid \<and>
     (\<forall>j < nat (findTask ts tid i - i). ID (ts ! j) \<noteq> tid)"
proof (induction ts arbitrary: i)
  case Nil
  then show ?case by simp
next
  case (Cons t ts)
  show ?case
  proof (cases "ID t = tid")
    case True
    then show ?thesis by simp
  next
    case False
    with Cons.prems have nf: "findTask ts tid (i + 1) \<noteq> -1" by simp
    from Cons.prems have i1: "0 \<le> i + 1" by simp
    note IH = Cons.IH [OF i1 nf]
    from findTask_bounds [of ts tid "i + 1"] nf
    have lo: "i + 1 \<le> findTask ts tid (i + 1)" by blast
    then have eq: "nat (findTask ts tid (i + 1) - i) = Suc (nat (findTask ts tid (i + 1) - (i + 1)))"
      by simp
    show ?thesis
      using False IH by (auto simp: eq less_Suc_eq_0_disj)
  qed
qed

section \<open>Invalid and unknown ids\<close>

text \<open>
  Claim C8. With an id \<open>\<le> 0\<close>, \<^verbatim>\<open>CompleteTask\<close> and \<^verbatim>\<open>DeleteTask\<close> return
  \<^verbatim>\<open>ErrInvalidID\<close>; with a positive id that no task of the collection carries, they return
  \<^verbatim>\<open>ErrTaskNotFound\<close>. In both cases the whole service comes back as it was: the tasks,
  their fields, their order, \<open>next_id\<close>, and the storage. This holds for every storage,
  also for one whose \<^verbatim>\<open>Save\<close> changes its state on every call, so no save has run.
\<close>

theorem invalid_or_unknown_id_unchanged:
  "(tid \<le>s 0 \<longrightarrow>
      CompleteTask S todo tid = (Some ErrInvalidID, todo) \<and>
      DeleteTask S todo tid = (Some ErrInvalidID, todo)) \<and>
   (0 <s tid \<and> tid \<notin> ID ` set (Tasks (list todo)) \<longrightarrow>
      CompleteTask S todo tid = (Some ErrTaskNotFound, todo) \<and>
      DeleteTask S todo tid = (Some ErrTaskNotFound, todo))"
proof -
  have "findTask (Tasks (list todo)) tid 0 = -1" if "tid \<notin> ID ` set (Tasks (list todo))"
    using that findTask_not_found [of 0 "Tasks (list todo)" tid] by simp
  then show ?thesis
    by (auto simp: CompleteTask_def DeleteTask_def Let_def)
qed

theorem invalid_or_unknown_id_unchanged_witness:
  "(0::64 word) \<le>s 0 \<and> 0 <s (5::64 word) \<and> (5::64 word) \<notin> ID ` set (Tasks sampleList) \<and>
   CompleteTask mockStorage \<lparr>list = sampleList, storage = None\<rparr> 0
     = (Some ErrInvalidID, \<lparr>list = sampleList, storage = None\<rparr>) \<and>
   DeleteTask mockStorage \<lparr>list = sampleList, storage = None\<rparr> 0
     = (Some ErrInvalidID, \<lparr>list = sampleList, storage = None\<rparr>) \<and>
   CompleteTask mockStorage \<lparr>list = sampleList, storage = None\<rparr> 5
     = (Some ErrTaskNotFound, \<lparr>list = sampleList, storage = None\<rparr>) \<and>
   DeleteTask mockStorage \<lparr>list = sampleList, storage = None\<rparr> 5
     = (Some ErrTaskNotFound, \<lparr>list = sampleList, storage = None\<rparr>)"
  using invalid_or_unknown_id_unchanged [of 0 mockStorage "\<lparr>list = sampleList, storage = None\<rparr>"]
        invalid_or_unknown_id_unchanged [of 5 mockStorage "\<lparr>list = sampleList, storage = None\<rparr>"]
  by (simp add: sampleList_def word_sle_eq word_sless_alt)

section \<open>Storage errors\<close>

lemma Is_Wrapped_sentinel:
  "IsStorageError err \<Longrightarrow> IsStorageError (WrapWithContext err ctx)"
  by (auto simp: IsStorageError_def WrapWithContext_def)

lemma FileStorage_Save_IsStorageError:
  "FileStorage_Save sys filepath fs l = (Some err, fs') \<Longrightarrow> IsStorageError err"
  by (auto simp: FileStorage_Save_def IsStorageError_def WrapStorageWriteError_def Let_def
      split: sum.splits prod.splits option.splits)

section \<open>Rollback when the save fails\<close>

text \<open>
  Claim C2. When the description is not blank and the save of the extended collection
  fails, \<^verbatim>\<open>AddTask\<close> drops the appended task and decrements \<open>next_id\<close>: the
  collection is exactly the one before the call (only the storage has moved to the state
  the failed save left). The caller gets the save's error wrapped with context, and no
  task. The wrapped error is a storage error whenever the save's error is one, as every
  error of \<^verbatim>\<open>FileStorage.Save\<close> is.
\<close>

theorem AddTask_save_failure_rollback:
  assumes "TrimSpace description \<noteq> []"
    and "Save S (storage todo)
           \<lparr>Tasks = Tasks (list todo) @
              [\<lparr>ID = NextID (list todo), Description = description,
                Completed = False, CreatedAt = now\<rparr>],
            NextID = NextID (list todo) + 1\<rparr> = (Some err, st')"
  shows "AddTask TrimSpace S now todo description =
           (Inl (WrapWithContext err ''failed to save task after adding''),
            todo\<lparr>storage := st'\<rparr>) \<and>
         list (snd (AddTask TrimSpace S now todo description)) = list todo \<and>
         (IsStorageError err \<longrightarrow>
            IsStorageError (WrapWithContext err ''failed to save task after adding''))"
  using assms by (simp add: AddTask_def Let_def Is_Wrapped_sentinel)

theorem AddTask_save_failure_rollback_witness:
  "TrimSpaceASCII '' c '' \<noteq> [] \<and>
   AddTask TrimSpaceASCII (NewFileStorage readOnlySys ''t.json'') 30
       \<lparr>list = sampleList, storage = ()\<rparr> '' c '' =
     (Inl (WrapWithContext
            (WrapStorageWriteError (Join ErrStorageWrite (OtherError ''permission denied'')) ''t.json'')
            ''failed to save task after adding''),
      \<lparr>list = sampleList, storage = ()\<rparr>) \<and>
   IsStorageError (WrapWithContext
            (WrapStorageWriteError (Join ErrStorageWrite (OtherError ''permission denied'')) ''t.json'')
            ''failed to save task after adding'')"
  using AddTask_save_failure_rollback [of TrimSpaceASCII "'' c ''"
      "NewFileStorage readOnlySys ''t.json''" "\<lparr>list = sampleList, storage = ()\<rparr>" 30
      "WrapStorageWriteError (Join ErrStorageWrite (OtherError ''permission denied'')) ''t.json''" "()"]
  by (simp add: TrimSpaceASCII_def isSpaceASCII_def NewFileStorage_def FileStorage_Save_def
      readOnlySys_def IsStorageError_def WrapStorageWriteError_def WrapWithContext_def)

lemma reinsert_removed:
  "k < length ts \<Longrightarrow>
   take k (take k ts @ drop (k + 1) ts) @ ([ts ! k] @ drop k (take k ts @ drop (k + 1) ts)) = ts"
  by (simp add: min_def id_take_nth_drop [symmetric])

text \<open>
  Claim C3. When \<^verbatim>\<open>DeleteTask\<close> has removed the first task carrying a positive id and
  the save of the shortened collection fails, the task is put back at the index it was
  removed from: the collection is exactly the one before the call (same tasks, same order,
  same \<open>next_id\<close>), and the call returns the save's error wrapped with context.
\<close>

theorem DeleteTask_save_failure_rollback:
  assumes "0 <s tid" and "tid \<in> ID ` set (Tasks (list todo))"
    and "Save S (storage todo)
           ((list todo)\<lparr>Tasks :=
              take (nat (findTask (Tasks (list todo)) tid 0)) (Tasks (list todo)) @
              drop (nat (findTask (Tasks (list todo)) tid 0) + 1) (Tasks (list todo))\<rparr>)
         = (Some err, st')"
  shows "DeleteTask S todo tid =
           (Some (WrapWithContext err ''failed to save task after deleting''),
            todo\<lparr>storage := st'\<rparr>) \<and>
         list (snd (DeleteTask S todo tid)) = list todo \<and>
         (IsStorageError err \<longrightarrow>
            IsStorageError (WrapWithContext err ''failed to save task after deleting''))"
proof -
  let ?ts = "Tasks (list todo)"
  let ?k = "nat (findTask ?ts tid 0)"
  from assms(2) have found: "findTask ?ts tid 0 \<noteq> -1"
    using findTask_not_found [of 0 ?ts tid] by simp
  then have "?k < length ?ts"
    using findTask_first [of 0 ?ts tid] by simp
  then have restored: "take ?k (take ?k ?ts @ drop (?k + 1) ?ts) @
      ([?ts ! ?k] @ drop ?k (take ?k ?ts @ drop (?k + 1) ?ts)) = ?ts"
    by (rule reinsert_removed)
  from assms(1) have pos: "\<not> tid \<le>s 0"
    by (simp add: word_sle_eq word_sless_alt)
  have "DeleteTask S todo tid =
           (Some (WrapWithContext err ''failed to save task after deleting''),
            todo\<lparr>storage := st'\<rparr>)"
    using pos found assms(3) restored by (simp add: DeleteTask_def Let_def)
  then show ?thesis by (simp add: Is_Wrapped_sentinel)
qed

theorem DeleteTask_save_failure_rollback_witness:
  "0 <s (1::64 word) \<and> (1::64 word) \<in> ID ` set (Tasks sampleList) \<and>
   DeleteTask (NewFileStorage readOnlySys ''t.json'') \<lparr>list = sampleList, storage = ()\<rparr> 1 =
     (Some (WrapWithContext
            (WrapStorageWriteError (Join ErrStorageWrite (OtherError ''permission denied'')) ''t.json'')
            ''failed to save task after deleting''),
      \<lparr>list = sampleList, storage = ()\<rparr>) \<and>
   IsStorageError (WrapWithContext
            (WrapStorageWriteError (Join ErrStorageWrite (OtherError ''permission denied'')) ''t.json'')
            ''failed to save task after deleting'')"
  using DeleteTask_save_failure_rollback [of 1 "\<lparr>list = sampleList, storage = ()\<rparr>"
      "NewFileStorage readOnlySys ''t.json''"
      "WrapStorageWriteError (Join ErrStorageWrite (OtherError ''permission denied'')) ''t.json''" "()"]
  by (simp add: sampleList_def word_sless_alt NewFileStorage_def FileStorage_Save_def
      readOnlySys_def IsStorageError_def WrapStorageWriteError_def WrapWithContext_def)

text \<open>
  What \<^verbatim>\<open>CompleteTask\<close> does when its save fails, on every collection: the task it
  had marked is left with \<open>completed = false\<close>, whatever the flag was before the call;
  nothing else changes.
\<close>

lemma CompleteTask_save_failure_sets_false:
  fixes S :: "'s Storage" and todo :: "'s TodoList" and tid :: "64 word"
  defines "ts \<equiv> Tasks (list todo)"
  defines "k \<equiv> nat (findTask ts tid 0)"
  assumes "0 <s tid" and "tid \<in> ID ` set ts"
    and "Save S (storage todo) ((list todo)\<lparr>Tasks := ts[k := (ts ! k)\<lparr>Completed := True\<rparr>]\<rparr>)
           = (Some err, st')"
  shows "CompleteTask S todo tid =
           (Some (WrapWithContext err ''failed to save task after completing''),
            \<lparr>list = (list todo)\<lparr>Tasks := ts[k := (ts ! k)\<lparr>Completed := False\<rparr>]\<rparr>,
             storage = st'\<rparr>)"
proof -
  from assms(3) have pos: "\<not> tid \<le>s 0"
    by (simp add: word_sle_eq word_sless_alt)
  from assms(4) have found: "findTask ts tid 0 \<noteq> -1"
    using findTask_not_found [of 0 ts tid] by simp
  then have k: "k < length ts"
    using findTask_first [of 0 ts tid] by (simp add: k_def)
  show ?thesis
    using pos found k assms(5)
    by (simp add: CompleteTask_def Let_def ts_def [symmetric] k_def [symmetric])
qed

text \<open>
  Claim C1, evaluated where the code departs from it. Task 2 of the sample collection is
  already completed. \<^verbatim>\<open>CompleteTask(2)\<close> on a storage that cannot write returns the
  wrapped storage error, and leaves task 2 with \<open>completed = false\<close>: the rollback
  writes the constant \<^verbatim>\<open>false\<close>, not the flag's value before the call.
\<close>

theorem CompleteTask_save_failure_clears_flag:
  "CompleteTask (NewFileStorage readOnlySys ''t.json'') \<lparr>list = sampleList, storage = ()\<rparr> 2 =
     (Some (WrapWithContext
            (WrapStorageWriteError (Join ErrStorageWrite (OtherError ''permission denied'')) ''t.json'')
            ''failed to save task after completing''),
      \<lparr>list = \<lparr>Tasks = [\<lparr>ID = 1, Description = ''a'', Completed = False, CreatedAt = 10\<rparr>,
                        \<lparr>ID = 2, Description = ''b'', Completed = False, CreatedAt = 20\<rparr>],
               NextID = 3\<rparr>,
       storage = ()\<rparr>) \<and>
   Completed (Tasks sampleList ! 1) = True"
  by (simp add: CompleteTask_def sampleList_def word_sle_eq NewFileStorage_def FileStorage_Save_def
      readOnlySys_def WrapStorageWriteError_def WrapWithContext_def)

section \<open>Blank descriptions\<close>

text \<open>
  Claim C4. Whatever \<^verbatim>\<open>strings.TrimSpace\<close> computes, \<^verbatim>\<open>AddTask\<close> returns
  \<^verbatim>\<open>ErrEmptyDescription\<close> exactly when the trimmed description is empty, and then the
  service is unchanged; these are the descriptions made of white space only, the empty one
  included. Whenever a task is returned, its description is the input as given, untrimmed,
  and it is the task appended to the collection.
\<close>

theorem AddTask_empty_description:
  "((fst (AddTask TrimSpace S now todo description) = Inl ErrEmptyDescription)
      = (TrimSpace description = [])) \<and>
   (TrimSpace description = [] \<longrightarrow>
      AddTask TrimSpace S now todo description = (Inl ErrEmptyDescription, todo)) \<and>
   (\<forall>task. fst (AddTask TrimSpace S now todo description) = Inr task \<longrightarrow>
      Description task = description \<and>
      Tasks (list (snd (AddTask TrimSpace S now todo description))) = Tasks (list todo) @ [task])"
  by (auto simp: AddTask_def Let_def WrapWithContext_def split: prod.splits option.splits)

theorem AddTask_empty_description_witness:
  "TrimSpaceASCII ''  '' = [] \<and> TrimSpaceASCII [] = [] \<and>
   AddTask TrimSpaceASCII mockStorage 30 \<lparr>list = sampleList, storage = None\<rparr> ''  '' =
     (Inl ErrEmptyDescription, \<lparr>list = sampleList, storage = None\<rparr>) \<and>
   AddTask TrimSpaceASCII mockStorage 30 \<lparr>list = sampleList, storage = None\<rparr> [] =
     (Inl ErrEmptyDescription, \<lparr>list = sampleList, storage = None\<rparr>) \<and>
   fst (AddTask TrimSpaceASCII mockStorage 30 \<lparr>list = sampleList, storage = None\<rparr> '' c '') =
     Inr \<lparr>ID = 3, Description = '' c '', Completed = False, CreatedAt = 30\<rparr> \<and>
   TrimSpaceASCII '' c '' = ''c'' \<and>
   Tasks (list (snd (AddTask TrimSpaceASCII mockStorage 30
       \<lparr>list = sampleList, storage = None\<rparr> '' c ''))) =
     Tasks sampleList @ [\<lparr>ID = 3, Description = '' c '', Completed = False, CreatedAt = 30\<rparr>]"
  using AddTask_empty_description [of TrimSpaceASCII mockStorage 30
          "\<lparr>list = sampleList, storage = None\<rparr>" "''  ''"]
        AddTask_empty_description [of TrimSpaceASCII mockStorage 30
          "\<lparr>list = sampleList, storage = None\<rparr>" "[]"]
        AddTask_empty_description [of TrimSpaceASCII mockStorage 30
          "\<lparr>list = sampleList, storage = None\<rparr>" "'' c ''"]
  by (simp add: TrimSpaceASCII_def isSpaceASCII_def AddTask_def mockStorage_def sampleList_def Let_def)

text \<open>The ASCII trimming empties exactly the strings made of white space only.\<close>

lemma TrimSpaceASCII_empty_iff:
  "(TrimSpaceASCII s = []) = (\<forall>c \<in> set s. isSpaceASCII c)"
proof -
  have "(dropWhile isSpaceASCII (rev (dropWhile isSpaceASCII s)) = []) =
      (dropWhile isSpaceASCII s = [])"
  proof (cases "dropWhile isSpaceASCII s")
    case Nil
    show ?thesis unfolding Nil by simp
  next
    case (Cons c cs)
    then have "\<not> isSpaceASCII c"
      using hd_dropWhile [of isSpaceASCII s] by force
    then have "dropWhile isSpaceASCII (rev (c # cs)) \<noteq> []"
      by (simp add: dropWhile_append)
    with Cons show ?thesis by simp
  qed
  then show ?thesis
    by (simp add: TrimSpaceASCII_def)
qed

section \<open>Adding a task\<close>

lemma sint_succ:
  fixes w :: "64 word"
  assumes "sint w < 2 ^ 63 - 1"
  shows "sint (w + 1) = sint w + 1"
proof -
  have lo: "- (2 ^ 63) \<le> sint w" using sint_ge [of w] by simp
  have "sint (w + 1) = signed_take_bit 63 (sint w + 1)"
    by (simp add: sint_word_ariths)
  also have "\<dots> = sint w + 1"
    using lo assms by (intro signed_take_bit_int_eq_self) auto
  finally show ?thesis .
qed

text \<open>
  Claim C5, where it fails as stated. In a collection whose \<open>next_id\<close> is not above the
  ids present (\<^verbatim>\<open>Load\<close> accepts such a file), \<^verbatim>\<open>AddTask\<close> succeeds and returns a task
  whose id, 1, is already carried by a task of the collection.
\<close>

theorem AddTask_reused_id_counterexample:
  "fst (AddTask TrimSpaceASCII mockStorage 30 \<lparr>list = staleList, storage = None\<rparr> ''x'') =
     Inr \<lparr>ID = 1, Description = ''x'', Completed = False, CreatedAt = 30\<rparr> \<and>
   (1::64 word) \<in> ID ` set (Tasks staleList)"
  by (simp add: AddTask_def TrimSpaceASCII_def isSpaceASCII_def mockStorage_def staleList_def Let_def)

text \<open>
  Claim C5, amended. For every collection and every description that is not blank, when
  the save succeeds \<^verbatim>\<open>AddTask\<close> returns the created task by value: its id is the
  \<open>next_id\<close> before the call, its description the input, \<open>completed\<close> false and
  \<open>created_at\<close> the time read in the call. \<^verbatim>\<open>ListTasks\<close> is the former list with that
  task appended, one longer, and \<open>next_id\<close> is incremented by 1 in 64-bit arithmetic
  (below the largest \<^verbatim>\<open>int\<close> this is the integer successor). The id is unused before
  the call whenever every id of the collection is below \<open>next_id\<close>.
\<close>

theorem AddTask_success:
  assumes "TrimSpace description \<noteq> []"
    and "Save S (storage todo)
           \<lparr>Tasks = Tasks (list todo) @
              [\<lparr>ID = NextID (list todo), Description = description,
                Completed = False, CreatedAt = now\<rparr>],
            NextID = NextID (list todo) + 1\<rparr> = (None, st')"
  shows "fst (AddTask TrimSpace S now todo description) =
           Inr \<lparr>ID = NextID (list todo), Description = description,
                Completed = False, CreatedAt = now\<rparr> \<and>
         ListTasks (snd (AddTask TrimSpace S now todo description)) =
           ListTasks todo @ [\<lparr>ID = NextID (list todo), Description = description,
                             Completed = False, CreatedAt = now\<rparr>] \<and>
         length (ListTasks (snd (AddTask TrimSpace S now todo description))) =
           length (ListTasks todo) + 1 \<and>
         NextID (list (snd (AddTask TrimSpace S now todo description))) = NextID (list todo) + 1 \<and>
         storage (snd (AddTask TrimSpace S now todo description)) = st' \<and>
         (sint (NextID (list todo)) < 2 ^ 63 - 1 \<longrightarrow>
            sint (NextID (list (snd (AddTask TrimSpace S now todo description)))) =
              sint (NextID (list todo)) + 1) \<and>
         ((\<forall>t \<in> set (Tasks (list todo)). ID t <s NextID (list todo)) \<longrightarrow>
            NextID (list todo) \<notin> ID ` set (ListTasks todo))"
proof -
  have res: "AddTask TrimSpace S now todo description =
      (Inr \<lparr>ID = NextID (list todo), Description = description,
            Completed = False, CreatedAt = now\<rparr>,
       \<lparr>list = \<lparr>Tasks = Tasks (list todo) @
              [\<lparr>ID = NextID (list todo), Description = description,
                Completed = False, CreatedAt = now\<rparr>],
            NextID = NextID (list todo) + 1\<rparr>, storage = st'\<rparr>)"
    using assms by (simp add: AddTask_def Let_def)
  have fresh: "NextID (list todo) \<notin> ID ` set (ListTasks todo)"
    if "\<forall>t \<in> set (Tasks (list todo)). ID t <s NextID (list todo)"
    using that by (auto simp: ListTasks_def word_sless_alt)
  show ?thesis
    unfolding res using fresh by (simp add: ListTasks_def sint_succ)
qed

theorem AddTask_success_witness:
  "TrimSpaceASCII '' c '' \<noteq> [] \<and>
   AddTask TrimSpaceASCII mockStorage 30 \<lparr>list = sampleList, storage = None\<rparr> '' c '' =
     (Inr \<lparr>ID = 3, Description = '' c '', Completed = False, CreatedAt = 30\<rparr>,
      \<lparr>list = \<lparr>Tasks = Tasks sampleList @
                  [\<lparr>ID = 3, Description = '' c '', Completed = False, CreatedAt = 30\<rparr>],
               NextID = 4\<rparr>,
       storage = Some \<lparr>Tasks = Tasks sampleList @
                  [\<lparr>ID = 3, Description = '' c '', Completed = False, CreatedAt = 30\<rparr>],
               NextID = 4\<rparr>\<rparr>) \<and>
   sint (NextID sampleList) < 2 ^ 63 - 1 \<and>
   (3::64 word) \<notin> ID ` set (Tasks sampleList) \<and>
   ID (Tasks sampleList ! 0) <s NextID sampleList \<and> ID (Tasks sampleList ! 1) <s NextID sampleList"
  using AddTask_success [of TrimSpaceASCII "'' c ''" mockStorage
      "\<lparr>list = sampleList, storage = None\<rparr>" 30
      "Some \<lparr>Tasks = Tasks sampleList @
                  [\<lparr>ID = 3, Description = '' c '', Completed = False, CreatedAt = 30\<rparr>],
               NextID = 4\<rparr>"]
  by (simp add: TrimSpaceASCII_def isSpaceASCII_def AddTask_def mockStorage_def sampleList_def Let_def
      ListTasks_def word_sless_alt)

section \<open>Completing a task twice\<close>

lemma findTask_same_ids:
  "map ID ts = map ID ts' \<Longrightarrow> findTask ts tid i = findTask ts' tid i"
proof (induction ts arbitrary: ts' i)
  case Nil
  then show ?case by simp
next
  case (Cons t ts)
  then obtain t' rest where ts': "ts' = t' # rest" by (cases ts') auto
  with Cons.prems have "ID t = ID t'" and "map ID ts = map ID rest" by simp_all
  with Cons.IH [of rest "i + 1"] show ?case by (simp add: ts')
qed

lemma nth_complete:
  "j < length ts \<Longrightarrow>
   ts[k := (ts ! k)\<lparr>Completed := True\<rparr>] ! j =
     (if j = k then (ts ! j)\<lparr>Completed := True\<rparr> else ts ! j)"
  by (cases "j = k") auto

lemma map_ID_complete:
  "map ID (ts[k := (ts ! k)\<lparr>Completed := True\<rparr>]) = map ID ts"
  by (rule nth_equalityI) (auto simp: nth_complete)

text \<open>
  Claim C6. Let \<open>tid\<close> be a positive id carried by a task of the collection, so that
  \<^verbatim>\<open>CompleteTask\<close> reaches its save, and let the saves succeed. The first call sets
  \<open>completed\<close> of the first task with that id (index \<open>k\<close>) and returns no error. A
  second call returns no error and leaves the collection as the first call left it. Over
  both calls every task keeps its id, description and creation time, every task but the
  one at \<open>k\<close> is untouched, and the length and \<open>next_id\<close> are unchanged.
\<close>

theorem CompleteTask_idempotent:
  fixes S :: "'s Storage" and todo :: "'s TodoList" and tid :: "64 word"
  defines "ts \<equiv> Tasks (list todo)"
  defines "k \<equiv> nat (findTask ts tid 0)"
  defines "l1 \<equiv> (list todo)\<lparr>Tasks := ts[k := (ts ! k)\<lparr>Completed := True\<rparr>]\<rparr>"
  assumes "0 <s tid" and "tid \<in> ID ` set ts"
    and "Save S (storage todo) l1 = (None, st1)"
    and "Save S st1 l1 = (None, st2)"
  shows "CompleteTask S todo tid = (None, \<lparr>list = l1, storage = st1\<rparr>) \<and>
         CompleteTask S \<lparr>list = l1, storage = st1\<rparr> tid = (None, \<lparr>list = l1, storage = st2\<rparr>) \<and>
         k < length ts \<and> ID (ts ! k) = tid \<and> (\<forall>j < k. ID (ts ! j) \<noteq> tid) \<and>
         Completed (Tasks l1 ! k) \<and>
         NextID l1 = NextID (list todo) \<and>
         length (Tasks l1) = length ts \<and>
         (\<forall>j < length ts.
            ID (Tasks l1 ! j) = ID (ts ! j) \<and>
            Description (Tasks l1 ! j) = Description (ts ! j) \<and>
            CreatedAt (Tasks l1 ! j) = CreatedAt (ts ! j) \<and>
            (j \<noteq> k \<longrightarrow> Tasks l1 ! j = ts ! j))"
proof -
  from assms(4) have pos: "\<not> tid \<le>s 0"
    by (simp add: word_sle_eq word_sless_alt)
  from assms(5) have found: "findTask ts tid 0 \<noteq> -1"
    using findTask_not_found [of 0 ts tid] by simp
  then have k: "k < length ts" and idk: "ID (ts ! k) = tid"
    and firstk: "\<forall>j < k. ID (ts ! j) \<noteq> tid"
    using findTask_first [of 0 ts tid] by (simp_all add: k_def)
  have tasks_l1: "Tasks l1 = ts[k := (ts ! k)\<lparr>Completed := True\<rparr>]"
    by (simp add: l1_def)
  have first: "CompleteTask S todo tid = (None, \<lparr>list = l1, storage = st1\<rparr>)"
    using pos found assms(6)
    by (simp add: CompleteTask_def Let_def ts_def [symmetric] k_def [symmetric] l1_def [symmetric])
  have same: "findTask (Tasks l1) tid 0 = findTask ts tid 0"
    unfolding tasks_l1 by (simp add: findTask_same_ids [OF map_ID_complete])
  have again: "(Tasks l1)[k := (Tasks l1 ! k)\<lparr>Completed := True\<rparr>] = Tasks l1"
    unfolding tasks_l1 using k by simp
  have l1_again: "l1\<lparr>Tasks := Tasks l1\<rparr> = l1" by simp
  have second: "CompleteTask S \<lparr>list = l1, storage = st1\<rparr> tid = (None, \<lparr>list = l1, storage = st2\<rparr>)"
    using pos found same assms(7) again l1_again
    by (simp add: CompleteTask_def Let_def k_def [symmetric])
  have fields: "\<forall>j < length ts.
            ID (Tasks l1 ! j) = ID (ts ! j) \<and>
            Description (Tasks l1 ! j) = Description (ts ! j) \<and>
            CreatedAt (Tasks l1 ! j) = CreatedAt (ts ! j) \<and>
            (j \<noteq> k \<longrightarrow> Tasks l1 ! j = ts ! j)"
    unfolding tasks_l1 by (auto simp: nth_complete)
  have flag: "Completed (Tasks l1 ! k)"
    unfolding tasks_l1 using k by simp
  have rest: "NextID l1 = NextID (list todo)" "length (Tasks l1) = length ts"
    by (simp_all add: l1_def)
  from first second k idk firstk flag rest fields show ?thesis by blast
qed

theorem CompleteTask_idempotent_witness:
  "0 <s (1::64 word) \<and> (1::64 word) \<in> ID ` set (Tasks sampleList) \<and>
   nat (findTask (Tasks sampleList) 1 0) = 0 \<and>
   CompleteTask mockStorage \<lparr>list = sampleList, storage = None\<rparr> 1 =
     (None,
      \<lparr>list = \<lparr>Tasks = [\<lparr>ID = 1, Description = ''a'', Completed = True, CreatedAt = 10\<rparr>,
                        \<lparr>ID = 2, Description = ''b'', Completed = True, CreatedAt = 20\<rparr>],
               NextID = 3\<rparr>,
       storage = Some \<lparr>Tasks = [\<lparr>ID = 1, Description = ''a'', Completed = True, CreatedAt = 10\<rparr>,
                        \<lparr>ID = 2, Description = ''b'', Completed = True, CreatedAt = 20\<rparr>],
               NextID = 3\<rparr>\<rparr>) \<and>
   CompleteTask mockStorage
      \<lparr>list = \<lparr>Tasks = [\<lparr>ID = 1, Description = ''a'', Completed = True, CreatedAt = 10\<rparr>,
                        \<lparr>ID = 2, Description = ''b'', Completed = True, CreatedAt = 20\<rparr>],
               NextID = 3\<rparr>,
       storage = Some \<lparr>Tasks = [\<lparr>ID = 1, Description = ''a'', Completed = True, CreatedAt = 10\<rparr>,
                        \<lparr>ID = 2, Description = ''b'', Completed = True, CreatedAt = 20\<rparr>],
               NextID = 3\<rparr>\<rparr> 1 =
     (None,
      \<lparr>list = \<lparr>Tasks = [\<lparr>ID = 1, Description = ''a'', Completed = True, CreatedAt = 10\<rparr>,
                        \<lparr>ID = 2, Description = ''b'', Completed = True, CreatedAt = 20\<rparr>],
               NextID = 3\<rparr>,
       storage = Some \<lparr>Tasks = [\<lparr>ID = 1, Description = ''a'', Completed = True, CreatedAt = 10\<rparr>,
                        \<lparr>ID = 2, Description = ''b'', Completed = True, CreatedAt = 20\<rparr>],
               NextID = 3\<rparr>\<rparr>)"
  using CompleteTask_idempotent [where tid = 1 and S = mockStorage
      and todo = "\<lparr>list = sampleList, storage = None\<rparr>"
      and ?st1.0 = "Some \<lparr>Tasks = [\<lparr>ID = 1, Description = ''a'', Completed = True, CreatedAt = 10\<rparr>,
                        \<lparr>ID = 2, Description = ''b'', Completed = True, CreatedAt = 20\<rparr>],
               NextID = 3\<rparr>"
      and ?st2.0 = "Some \<lparr>Tasks = [\<lparr>ID = 1, Description = ''a'', Completed = True, CreatedAt = 10\<rparr>,
                        \<lparr>ID = 2, Description = ''b'', Completed = True, CreatedAt = 20\<rparr>],
               NextID = 3\<rparr>"]
  by (simp add: sampleList_def mockStorage_def word_sless_alt)

section \<open>Identifiers over a sequence of calls\<close>

lemma wellformed_ids:
  "wellformed l =
     (distinct (map ID (Tasks l)) \<and>
      (\<forall>i \<in> set (map ID (Tasks l)). 0 < sint i \<and> sint i < sint (NextID l)) \<and>
      0 < sint (NextID l))"
  by (auto simp: wellformed_def word_sless_alt)

lemma AddTask_Inr:
  "AddTask TrimSpace S now todo d = (Inr task, todo') \<Longrightarrow>
     ID task = NextID (list todo) \<and>
     Tasks (list todo') = Tasks (list todo) @ [task] \<and>
     NextID (list todo') = NextID (list todo) + 1"
  by (auto simp: AddTask_def Let_def split: if_splits prod.splits option.splits)

lemma CompleteTask_None:
  "CompleteTask S todo tid = (None, todo') \<Longrightarrow>
     map ID (Tasks (list todo')) = map ID (Tasks (list todo)) \<and>
     NextID (list todo') = NextID (list todo)"
  by (auto simp: CompleteTask_def Let_def map_ID_complete split: if_splits prod.splits option.splits)

lemma DeleteTask_None:
  "DeleteTask S todo tid = (None, todo') \<Longrightarrow>
     tid \<in> ID ` set (Tasks (list todo)) \<and>
     (\<exists>k. Tasks (list todo') = take k (Tasks (list todo)) @ drop (Suc k) (Tasks (list todo))) \<and>
     NextID (list todo') = NextID (list todo)"
proof -
  assume a: "DeleteTask S todo tid = (None, todo')"
  then have found: "findTask (Tasks (list todo)) tid 0 \<noteq> -1"
    by (auto simp: DeleteTask_def Let_def split: if_splits)
  then have "tid \<in> ID ` set (Tasks (list todo))"
    using findTask_not_found [of 0 "Tasks (list todo)" tid] by simp
  moreover from a have "(\<exists>k. Tasks (list todo') = take k (Tasks (list todo)) @ drop (Suc k) (Tasks (list todo))) \<and>
     NextID (list todo') = NextID (list todo)"
    by (auto simp: DeleteTask_def Let_def split: if_splits prod.splits option.splits)
  ultimately show ?thesis by simp
qed

lemma wellformed_add:
  assumes "wellformed l" and "sint (NextID l) < 2 ^ 63 - 1" and "ID task = NextID l"
  shows "wellformed \<lparr>Tasks = Tasks l @ [task], NextID = NextID l + 1\<rparr>"
  using assms by (auto simp: wellformed_ids sint_succ)

lemma wellformed_same_ids:
  assumes "wellformed l" and "map ID (Tasks l') = map ID (Tasks l)" and "NextID l' = NextID l"
  shows "wellformed l'"
  using assms by (simp add: wellformed_ids)

lemma wellformed_remove:
  assumes "wellformed l" and "Tasks l' = take k (Tasks l) @ drop (Suc k) (Tasks l)"
    and "NextID l' = NextID l"
  shows "wellformed l'"
proof -
  have sub: "set (map ID (Tasks l')) \<subseteq> set (map ID (Tasks l))"
    unfolding assms(2) by (auto dest: in_set_takeD in_set_dropD)
  have "distinct (map ID (take k (Tasks l)) @ map ID (drop (Suc k) (Tasks l)))"
    using assms(1) distinct_take [of "map ID (Tasks l)" k] distinct_drop [of "map ID (Tasks l)" "Suc k"]
      set_take_disj_set_drop_if_distinct [of "map ID (Tasks l)" k "Suc k"]
    by (simp add: wellformed_ids take_map drop_map)
  then have "distinct (map ID (Tasks l'))"
    unfolding assms(2) by simp
  with sub assms(1,3) show ?thesis
    by (auto simp: wellformed_ids)
qed

lemma run_Cons_Some:
  assumes "run TrimSpace S todo (c # cs) = Some (evs, todo')"
  obtains ev todo1 evs1 where "step TrimSpace S todo c = (Inr ev, todo1)"
    and "run TrimSpace S todo1 cs = Some (evs1, todo')" and "evs = ev # evs1"
  using assms by (auto split: prod.splits sum.splits option.splits)

lemma step_Add:
  assumes "step TrimSpace S todo (Add d now) = (Inr ev, todo1)"
  shows "ev = AddedID (NextID (list todo)) \<and>
         (\<exists>task. ID task = NextID (list todo) \<and> Tasks (list todo1) = Tasks (list todo) @ [task]) \<and>
         NextID (list todo1) = NextID (list todo) + 1"
  using assms by (auto simp: step_def split: prod.splits sum.splits dest: AddTask_Inr)

lemma step_Complete:
  assumes "step TrimSpace S todo (Complete tid) = (Inr ev, todo1)"
  shows "ev = CompletedID tid \<and> map ID (Tasks (list todo1)) = map ID (Tasks (list todo)) \<and>
         NextID (list todo1) = NextID (list todo)"
  using assms by (auto simp: step_def split: prod.splits option.splits dest: CompleteTask_None)

lemma step_Delete:
  assumes "step TrimSpace S todo (Delete tid) = (Inr ev, todo1)"
  shows "ev = DeletedID tid \<and> tid \<in> ID ` set (Tasks (list todo)) \<and>
         (\<exists>k. Tasks (list todo1) = take k (Tasks (list todo)) @ drop (Suc k) (Tasks (list todo))) \<and>
         NextID (list todo1) = NextID (list todo)"
proof -
  from assms obtain "DeleteTask S todo tid = (None, todo1)" and "ev = DeletedID tid"
    by (auto simp: step_def split: prod.splits option.splits)
  then show ?thesis using DeleteTask_None [of S todo tid todo1] by simp
qed

lemma run_invariant:
  assumes "run TrimSpace S todo cs = Some (evs, todo')"
    and "wellformed (list todo)"
    and "sint (NextID (list todo)) + int (adds cs) \<le> 2 ^ 63 - 1"
  shows "wellformed (list todo') \<and>
         sint (NextID (list todo')) = sint (NextID (list todo)) + int (adds cs) \<and>
         (\<forall>a \<in> set (assigned evs).
            sint (NextID (list todo)) \<le> sint a \<and> sint a < sint (NextID (list todo'))) \<and>
         sorted_wrt (\<lambda>a b. sint a < sint b) (assigned evs) \<and>
         (\<forall>xs d ys. evs = xs @ DeletedID d # ys \<longrightarrow> d \<notin> set (assigned ys))"
  using assms
proof (induction cs arbitrary: todo evs)
  case Nil
  then show ?case by simp
next
  case (Cons c cs)
  from Cons.prems(1) obtain ev todo1 evs1 where
    st: "step TrimSpace S todo c = (Inr ev, todo1)" and
    rest: "run TrimSpace S todo1 cs = Some (evs1, todo')" and
    evs: "evs = ev # evs1"
    by (rule run_Cons_Some)
  show ?case
  proof (cases c)
    case (Add d now)
    from Cons.prems(3) Add have room: "sint (NextID (list todo)) < 2 ^ 63 - 1"
      and bound1: "sint (NextID (list todo)) + 1 + int (adds cs) \<le> 2 ^ 63 - 1"
      by simp_all
    from step_Add [OF st [unfolded Add]] obtain task where
      ev: "ev = AddedID (NextID (list todo))" and
      task: "ID task = NextID (list todo)" "Tasks (list todo1) = Tasks (list todo) @ [task]" and
      nx: "NextID (list todo1) = NextID (list todo) + 1"
      by blast
    have nx_s: "sint (NextID (list todo1)) = sint (NextID (list todo)) + 1"
      using nx room by (simp add: sint_succ)
    have "list todo1 = \<lparr>Tasks = Tasks (list todo) @ [task], NextID = NextID (list todo) + 1\<rparr>"
      using task(2) nx by simp
    then have wf1: "wellformed (list todo1)"
      using wellformed_add [OF Cons.prems(2) room task(1)] by simp
    from bound1 nx_s have b1: "sint (NextID (list todo1)) + int (adds cs) \<le> 2 ^ 63 - 1"
      by simp
    note IH = Cons.IH [OF rest wf1 b1]
    have dec: "d' \<notin> set (assigned ys)" if "evs = xs @ DeletedID d' # ys" for xs d' ys
    proof -
      from that evs ev obtain xs' where "evs1 = xs' @ DeletedID d' # ys"
        by (cases xs) auto
      with IH show ?thesis by blast
    qed
    from IH nx_s dec show ?thesis
      by (auto simp: evs ev Add)
  next
    case (Complete tid)
    from step_Complete [OF st [unfolded Complete]] have
      ev: "ev = CompletedID tid" and
      ids: "map ID (Tasks (list todo1)) = map ID (Tasks (list todo))" and
      nx: "NextID (list todo1) = NextID (list todo)"
      by simp_all
    have wf1: "wellformed (list todo1)"
      using wellformed_same_ids [OF Cons.prems(2) ids nx] .
    from Cons.prems(3) Complete nx have b1: "sint (NextID (list todo1)) + int (adds cs) \<le> 2 ^ 63 - 1"
      by simp
    note IH = Cons.IH [OF rest wf1 b1]
    have dec: "d' \<notin> set (assigned ys)" if "evs = xs @ DeletedID d' # ys" for xs d' ys
    proof -
      from that evs ev obtain xs' where "evs1 = xs' @ DeletedID d' # ys"
        by (cases xs) auto
      with IH show ?thesis by blast
    qed
    from IH nx dec show ?thesis
      by (auto simp: evs ev Complete)
  next
    case (Delete tid)
    from step_Delete [OF st [unfolded Delete]] obtain k where
      ev: "ev = DeletedID tid" and
      ex: "tid \<in> ID ` set (Tasks (list todo))" and
      rm: "Tasks (list todo1) = take k (Tasks (list todo)) @ drop (Suc k) (Tasks (list todo))" and
      nx: "NextID (list todo1) = NextID (list todo)"
      by blast
    have wf1: "wellformed (list todo1)"
      using wellformed_remove [OF Cons.prems(2) rm nx] .
    from Cons.prems(3) Delete nx have b1: "sint (NextID (list todo1)) + int (adds cs) \<le> 2 ^ 63 - 1"
      by simp
    note IH = Cons.IH [OF rest wf1 b1]
    from ex Cons.prems(2) have below: "sint tid < sint (NextID (list todo))"
      by (auto simp: wellformed_ids)
    have dec: "d' \<notin> set (assigned ys)" if "evs = xs @ DeletedID d' # ys" for xs d' ys
    proof (cases xs)
      case Nil
      with that evs ev have "d' = tid" and "ys = evs1" by simp_all
      with IH nx below show ?thesis by force
    next
      case (Cons x xs')
      with that evs have "evs1 = xs' @ DeletedID d' # ys" by simp
      with IH show ?thesis by blast
    qed
    from IH nx dec show ?thesis
      by (auto simp: evs ev Delete)
  qed
qed

lemma strictly_increasing_distinct:
  "sorted_wrt (\<lambda>a b. sint a < sint b) (xs :: 64 word list) \<Longrightarrow> distinct xs"
  by (induction xs) auto

lemma DeleteTask_keeps_NextID:
  "NextID (list (snd (DeleteTask S todo tid))) = NextID (list todo)"
  by (simp add: DeleteTask_def Let_def split: prod.splits option.splits)

text \<open>
  Claim C7, where it fails as stated. The empty collection with \<open>next_id = 2 ^ 63 - 1\<close>
  is well-formed. Two successful \<^verbatim>\<open>AddTask\<close> calls on it assign \<open>2 ^ 63 - 1\<close> and
  then, \<^verbatim>\<open>NextID++\<close> having wrapped around, \<open>- (2 ^ 63)\<close>: the second id is below
  the first.
\<close>

theorem ids_wrap_counterexample:
  "wellformed lastIDList \<and>
   map_option (assigned \<circ> fst)
     (run TrimSpaceASCII mockStorage \<lparr>list = lastIDList, storage = None\<rparr> [Add ''a'' 1, Add ''b'' 2])
     = Some [0x7FFFFFFFFFFFFFFF, 0x8000000000000000] \<and>
   (0x8000000000000000 :: 64 word) <s 0x7FFFFFFFFFFFFFFF \<and>
   sint (0x8000000000000000 :: 64 word) = - (2 ^ 63)"
  by (simp add: wellformed_def lastIDList_def step_def AddTask_def TrimSpaceASCII_def isSpaceASCII_def
      mockStorage_def Let_def word_sless_alt)

text \<open>
  Claim C7, amended. Start from a well-formed collection and let every call of a sequence
  of \<^verbatim>\<open>AddTask\<close>, \<^verbatim>\<open>CompleteTask\<close> and \<^verbatim>\<open>DeleteTask\<close> calls succeed. As long as
  \<open>next_id\<close> plus the number of \<^verbatim>\<open>AddTask\<close> calls does not pass the largest 64-bit
  \<^verbatim>\<open>int\<close>, the ids assigned are strictly increasing in call order and pairwise
  distinct; each lies between the first \<open>next_id\<close> and the last; an id deleted at some
  point is not assigned by any later call; the collection stays well-formed, so
  \<open>next_id\<close> is above every id present and every id ever assigned; and
  \<^verbatim>\<open>DeleteTask\<close> never changes \<open>next_id\<close>.
\<close>

theorem ids_increase_without_wrap:
  assumes "wellformed (list todo)"
    and "run TrimSpace S todo cs = Some (evs, todo')"
    and "sint (NextID (list todo)) + int (adds cs) \<le> 2 ^ 63 - 1"
  shows "sorted_wrt (<s) (assigned evs) \<and>
         distinct (assigned evs) \<and>
         (\<forall>a \<in> set (assigned evs). NextID (list todo) \<le>s a \<and> a <s NextID (list todo')) \<and>
         (\<forall>xs d ys. evs = xs @ DeletedID d # ys \<longrightarrow> d \<notin> set (assigned ys)) \<and>
         (\<forall>t \<in> set (Tasks (list todo')). ID t <s NextID (list todo')) \<and>
         wellformed (list todo') \<and>
         sint (NextID (list todo')) = sint (NextID (list todo)) + int (adds cs) \<and>
         (\<forall>tid. NextID (list (snd (DeleteTask S todo tid))) = NextID (list todo))"
proof -
  note inv = run_invariant [OF assms(2) assms(1) assms(3)]
  from inv have incr: "sorted_wrt (\<lambda>a b. sint a < sint b) (assigned evs)" by blast
  have lt: "(<s) = (\<lambda>a b :: 64 word. sint a < sint b)"
    by (intro ext) (simp add: word_sless_alt)
  from incr have "sorted_wrt (<s) (assigned evs)" by (simp only: lt)
  moreover from incr have "distinct (assigned evs)" by (rule strictly_increasing_distinct)
  moreover from inv have "\<forall>a \<in> set (assigned evs). NextID (list todo) \<le>s a \<and> a <s NextID (list todo')"
    unfolding word_sle_eq word_sless_alt by blast
  moreover from inv have wf: "wellformed (list todo')" by blast
  then have "\<forall>t \<in> set (Tasks (list todo')). ID t <s NextID (list todo')"
    by (simp add: wellformed_def)
  ultimately show ?thesis
    using inv wf DeleteTask_keeps_NextID by blast
qed

theorem ids_increase_without_wrap_witness:
  "wellformed sampleList \<and>
   run TrimSpaceASCII mockStorage \<lparr>list = sampleList, storage = None\<rparr>
       [Add ''c'' 30, Delete 1, Complete 2, Add ''d'' 40] =
     Some ([AddedID 3, DeletedID 1, CompletedID 2, AddedID 4],
       \<lparr>list = \<lparr>Tasks = [\<lparr>ID = 2, Description = ''b'', Completed = True, CreatedAt = 20\<rparr>,
                         \<lparr>ID = 3, Description = ''c'', Completed = False, CreatedAt = 30\<rparr>,
                         \<lparr>ID = 4, Description = ''d'', Completed = False, CreatedAt = 40\<rparr>],
                NextID = 5\<rparr>,
        storage = Some \<lparr>Tasks = [\<lparr>ID = 2, Description = ''b'', Completed = True, CreatedAt = 20\<rparr>,
                         \<lparr>ID = 3, Description = ''c'', Completed = False, CreatedAt = 30\<rparr>,
                         \<lparr>ID = 4, Description = ''d'', Completed = False, CreatedAt = 40\<rparr>],
                NextID = 5\<rparr>\<rparr>) \<and>
   sint (NextID sampleList) + int (adds [Add ''c'' 30, Delete 1, Complete 2, Add ''d'' 40]) \<le> 2 ^ 63 - 1 \<and>
   sorted_wrt (<s) (assigned [AddedID 3, DeletedID 1, CompletedID 2, AddedID 4]) \<and>
   assigned [AddedID 3, DeletedID 1, CompletedID 2, AddedID 4] = [3, 4] \<and>
   (1::64 word) \<notin> set (assigned [CompletedID 2, AddedID 4])"
  using ids_increase_without_wrap [of "\<lparr>list = sampleList, storage = None\<rparr>" TrimSpaceASCII mockStorage
      "[Add ''c'' 30, Delete 1, Complete 2, Add ''d'' 40]"
      "[AddedID 3, DeletedID 1, CompletedID 2, AddedID 4]"
      "\<lparr>list = \<lparr>Tasks = [\<lparr>ID = 2, Description = ''b'', Completed = True, CreatedAt = 20\<rparr>,
                         \<lparr>ID = 3, Description = ''c'', Completed = False, CreatedAt = 30\<rparr>,
                         \<lparr>ID = 4, Description = ''d'', Completed = False, CreatedAt = 40\<rparr>],
                NextID = 5\<rparr>,
        storage = Some \<lparr>Tasks = [\<lparr>ID = 2, Description = ''b'', Completed = True, CreatedAt = 20\<rparr>,
                         \<lparr>ID = 3, Description = ''c'', Completed = False, CreatedAt = 30\<rparr>,
                         \<lparr>ID = 4, Description = ''d'', Completed = False, CreatedAt = 40\<rparr>],
                NextID = 5\<rparr>\<rparr>"]
  by (simp add: wellformed_def sampleList_def step_def AddTask_def CompleteTask_def DeleteTask_def
      TrimSpaceASCII_def isSpaceASCII_def mockStorage_def Let_def word_sless_alt word_sle_eq)

section \<open>Loading\<close>

text \<open>
  Claim C10. \<^verbatim>\<open>FileStorage.Load\<close> returns an error only when the read fails with
  something other than not-exist, or when the content does not parse; \<^verbatim>\<open>NewTodoList\<close>
  fails exactly when \<^verbatim>\<open>Load\<close> does. Whatever list the content parses to is returned as
  it is and becomes the service's collection: nothing is checked about ids, descriptions
  or \<open>next_id\<close>. On any collection, well-formed or not, \<^verbatim>\<open>CompleteTask\<close> and
  \<^verbatim>\<open>DeleteTask\<close> with a positive id that is present act on the first task in stored
  order carrying that id (index \<open>k\<close>), and on no other.
\<close>

theorem Load_accepts_any_parsed_collection:
  fixes sys :: "'fs Sys" and S :: "'s Storage" and todo :: "'s TodoList" and tid :: "64 word"
  defines "ts \<equiv> Tasks (list todo)"
  defines "k \<equiv> nat (findTask ts tid 0)"
  defines "completed \<equiv> (list todo)\<lparr>Tasks := ts[k := (ts ! k)\<lparr>Completed := True\<rparr>]\<rparr>"
  defines "removed \<equiv> (list todo)\<lparr>Tasks := take k ts @ drop (k + 1) ts\<rparr>"
  shows
  "((\<exists>e. FileStorage_Load sys filepath fs = Inl e) =
      ((\<exists>err. ReadFile sys fs filepath = Inl err \<and> \<not> IsNotExist sys err) \<or>
       (\<exists>data err. ReadFile sys fs filepath = Inr data \<and> Unmarshal sys data = Inl err))) \<and>
   ((\<exists>e. NewTodoList (NewFileStorage sys filepath) fs = Inl e) =
      (\<exists>e. FileStorage_Load sys filepath fs = Inl e)) \<and>
   (\<forall>data l. ReadFile sys fs filepath = Inr data \<and> Unmarshal sys data = Inr l \<longrightarrow>
      FileStorage_Load sys filepath fs = Inr l \<and>
      NewTodoList (NewFileStorage sys filepath) fs = Inr \<lparr>list = l, storage = fs\<rparr>) \<and>
   (0 <s tid \<and> tid \<in> ID ` set ts \<longrightarrow>
      k < length ts \<and> ID (ts ! k) = tid \<and> (\<forall>j < k. ID (ts ! j) \<noteq> tid) \<and>
      (\<forall>st'. Save S (storage todo) completed = (None, st') \<longrightarrow>
         CompleteTask S todo tid = (None, \<lparr>list = completed, storage = st'\<rparr>)) \<and>
      (\<forall>st'. Save S (storage todo) removed = (None, st') \<longrightarrow>
         DeleteTask S todo tid = (None, \<lparr>list = removed, storage = st'\<rparr>)))"
proof -
  have load_fails: "(\<exists>e. FileStorage_Load sys filepath fs = Inl e) =
      ((\<exists>err. ReadFile sys fs filepath = Inl err \<and> \<not> IsNotExist sys err) \<or>
       (\<exists>data err. ReadFile sys fs filepath = Inr data \<and> Unmarshal sys data = Inl err))"
    by (auto simp: FileStorage_Load_def split: sum.splits)
  have init_fails: "(\<exists>e. NewTodoList (NewFileStorage sys filepath) fs = Inl e) =
      (\<exists>e. FileStorage_Load sys filepath fs = Inl e)"
    by (auto simp: NewTodoList_def NewFileStorage_def split: sum.splits)
  have accepted: "FileStorage_Load sys filepath fs = Inr l \<and>
      NewTodoList (NewFileStorage sys filepath) fs = Inr \<lparr>list = l, storage = fs\<rparr>"
    if "ReadFile sys fs filepath = Inr data" and "Unmarshal sys data = Inr l" for data l
    using that by (simp add: FileStorage_Load_def NewTodoList_def NewFileStorage_def)
  have ops: "k < length ts \<and> ID (ts ! k) = tid \<and> (\<forall>j < k. ID (ts ! j) \<noteq> tid) \<and>
      (\<forall>st'. Save S (storage todo) completed = (None, st') \<longrightarrow>
         CompleteTask S todo tid = (None, \<lparr>list = completed, storage = st'\<rparr>)) \<and>
      (\<forall>st'. Save S (storage todo) removed = (None, st') \<longrightarrow>
         DeleteTask S todo tid = (None, \<lparr>list = removed, storage = st'\<rparr>))"
    if pos: "0 <s tid" and ex: "tid \<in> ID ` set ts"
  proof -
    from pos have np: "\<not> tid \<le>s 0"
      by (simp add: word_sle_eq word_sless_alt)
    from ex have found: "findTask ts tid 0 \<noteq> -1"
      using findTask_not_found [of 0 ts tid] by simp
    from findTask_first [of 0 ts tid] found
    have "k < length ts" and "ID (ts ! k) = tid" and "\<forall>j < k. ID (ts ! j) \<noteq> tid"
      by (simp_all add: k_def)
    then show ?thesis
      using np found
      by (simp add: CompleteTask_def DeleteTask_def Let_def
          ts_def [symmetric] k_def [symmetric] completed_def removed_def)
  qed
  from load_fails init_fails accepted ops show ?thesis by blast
qed

theorem Load_accepts_any_parsed_collection_witness:
  "FileStorage_Load (oneFileSys junkList) ''t.json'' () = Inr junkList \<and>
   NewTodoList (NewFileStorage (oneFileSys junkList) ''t.json'') () =
     Inr \<lparr>list = junkList, storage = ()\<rparr> \<and>
   0 <s (2::64 word) \<and> (2::64 word) \<in> ID ` set (Tasks junkList) \<and>
   nat (findTask (Tasks junkList) 2 0) = 0 \<and>
   CompleteTask mockStorage \<lparr>list = junkList, storage = None\<rparr> 2 =
     (None,
      \<lparr>list = \<lparr>Tasks = [\<lparr>ID = 2, Description = [], Completed = True, CreatedAt = 10\<rparr>,
                        \<lparr>ID = 0, Description = ''b'', Completed = False, CreatedAt = 20\<rparr>,
                        \<lparr>ID = 2, Description = ''c'', Completed = False, CreatedAt = 5\<rparr>],
               NextID = 1\<rparr>,
       storage = Some \<lparr>Tasks = [\<lparr>ID = 2, Description = [], Completed = True, CreatedAt = 10\<rparr>,
                        \<lparr>ID = 0, Description = ''b'', Completed = False, CreatedAt = 20\<rparr>,
                        \<lparr>ID = 2, Description = ''c'', Completed = False, CreatedAt = 5\<rparr>],
               NextID = 1\<rparr>\<rparr>) \<and>
   DeleteTask mockStorage \<lparr>list = junkList, storage = None\<rparr> 2 =
     (None,
      \<lparr>list = \<lparr>Tasks = [\<lparr>ID = 0, Description = ''b'', Completed = False, CreatedAt = 20\<rparr>,
                        \<lparr>ID = 2, Description = ''c'', Completed = False, CreatedAt = 5\<rparr>],
               NextID = 1\<rparr>,
       storage = Some \<lparr>Tasks = [\<lparr>ID = 0, Description = ''b'', Completed = False, CreatedAt = 20\<rparr>,
                        \<lparr>ID = 2, Description = ''c'', Completed = False, CreatedAt = 5\<rparr>],
               NextID = 1\<rparr>\<rparr>)"
  using Load_accepts_any_parsed_collection [where sys = "oneFileSys junkList"
      and filepath = "''t.json''" and fs = "()" and tid = 2
      and todo = "\<lparr>list = junkList, storage = None\<rparr>" and S = mockStorage]
  by (simp add: oneFileSys_def readOnlySys_def junkList_def mockStorage_def word_sless_alt)

section \<open>Saving, then loading\<close>

text \<open>
  The part of a save followed by a load that \<^verbatim>\<open>FileStorage\<close> itself decides: on a
  file system that accepts the writes, \<^verbatim>\<open>Save\<close> leaves the marshalled bytes under the
  storage's path (and no temporary file), and \<^verbatim>\<open>Load\<close> hands exactly these bytes to
  \<^verbatim>\<open>Unmarshal\<close> and returns what they parse to. Whether that is the list that was
  saved is a property of the codec alone.
\<close>

lemma Save_then_Load:
  assumes "marshal l = Inr data" and "unmarshal data = Inr l'"
  shows "FileStorage_Save (memSys marshal unmarshal) filepath fs l =
           (None, (fs(filepath @ ''.tmp'' := None))(filepath \<mapsto> data)) \<and>
         FileStorage_Load (memSys marshal unmarshal) filepath
           ((fs(filepath @ ''.tmp'' := None))(filepath \<mapsto> data)) = Inr l'"
  using assms
  by (simp add: FileStorage_Save_def FileStorage_Load_def memSys_def Let_def)

end
